theory Spec2Isabelle
  imports Complex_Main "HOL-Library.Word" "HOL-Library.FSet"
begin

section \<open>Solidity values and checked arithmetic\<close>

text \<open>
  The contract \<open>PartnerAlarmClock\<close> is compiled with \<open>pragma solidity ^0.8.9\<close>:
  \<open>uint\<close> is a 256-bit unsigned integer and \<open>+\<close>, \<open>-\<close>, \<open>*\<close> revert with
  \<open>Panic(0x11)\<close> instead of wrapping. A failed \<open>require\<close> reverts with its message.
  A reverted call leaves the storage as it was, so a call is a function from the state to
  either an error or the new state.
\<close>

type_synonym uint256 = "256 word"
type_synonym int256 = "256 word"
type_synonym uint8 = "8 word"
type_synonym address = "160 word"

datatype error = Revert string | Panic

definition checked_add :: "uint256 \<Rightarrow> uint256 \<Rightarrow> error + uint256" where
  "checked_add a b = (if unat a + unat b < 2 ^ 256 then Inr (a + b) else Inl Panic)"

definition checked_sub :: "uint256 \<Rightarrow> uint256 \<Rightarrow> error + uint256" where
  "checked_sub a b = (if b \<le> a then Inr (a - b) else Inl Panic)"

definition checked_mul :: "uint256 \<Rightarrow> uint256 \<Rightarrow> error + uint256" where
  "checked_mul a b = (if unat a * unat b < 2 ^ 256 then Inr (a * b) else Inl Panic)"

section \<open>The client's readiness check\<close>

text \<open>
  The creation form of the client keeps its fields in stores and derives \<open>isReady\<close>
  from them. A JavaScript \<open>number\<close> is an IEEE double: not a number, an infinity or a
  finite value. Its comparisons with another number are exact, and false as soon as one
  side is \<open>NaN\<close>.
\<close>

datatype number = NaN | NegInfinity | Finite real | PosInfinity





text \<open>
  The value of the store \<open>account\<close> comes from \<open>lib/chainClient\<close>, outside the files
  at hand; the client reads its fields \<open>address\<close> and \<open>isConnected\<close>. The account and
  its address can each be undefined.
\<close>

record Account =
  address :: "string option"
  isConnected :: bool

text \<open>The object \<open>bundledParams\<close> derives from the nine stores.\<close>

record bundledParams =
  account :: "Account option"
  otherPlayer :: string
  alarmDays :: "number list"
  alarmTime :: string
  deposit :: number
  missedAlarmPenalty :: number
  submissionWindow :: number
  timezoneOffset :: number
  timezoneOffsetConfirmed :: bool




section \<open>The schedule of confirmations\<close>

text \<open>
  Modelled from the spec: the library \<open>AlarmSchedule\<close> (its struct \<open>Schedule\<close> and its
  function \<open>recordEntry\<close>) is outside the files at hand. This is the schedule of the
  specification's sections 3, 4.1 and 4.2. An instant is a number of seconds since the
  epoch, a day anchor is a number of days since the epoch (day 0 is a Thursday), and the
  index of an occurrence is its day anchor.
\<close>

datatype Weekday = Mon | Tue | Wed | Thu | Fri | Sat | Sun

record WeeklyPattern =
  timeOfDay :: int
  activeDays :: "Weekday set"
  submissionWindow :: int
  timezoneOffset :: int

record AlarmSchedule =
  pattern :: WeeklyPattern
  startTime :: "int option"
  confirmedOccurrences :: "int fset"

text \<open>
  Modelled from the spec: the weekday of a day anchor, which the specification uses and
  does not define. 1 January 1970 was a Thursday.
\<close>

definition weekdayOf :: "int \<Rightarrow> Weekday" where
  "weekdayOf day = [Thu, Fri, Sat, Sun, Mon, Tue, Wed] ! nat (day mod 7)"

text \<open>
  Modelled from the spec: \<open>occurrenceWindow\<close> of section 4.1,
  \<open>close = absoluteMidnight(day) + timeOfDay - timezoneOffset\<close> and
  \<open>open = close - submissionWindow\<close>.
\<close>

definition occurrenceWindow :: "WeeklyPattern \<Rightarrow> int \<Rightarrow> int \<times> int" where
  "occurrenceWindow p day =
     (let close = day * 86400 + timeOfDay p - timezoneOffset p
      in (close - submissionWindow p, close))"

text \<open>
  Modelled from the spec: the window of the occurrence anchored at an active day
  contains the instant \<open>t\<close>, \<open>open \<le> t \<le> close\<close> (section 4.2).
\<close>

definition inWindow :: "WeeklyPattern \<Rightarrow> int \<Rightarrow> int \<Rightarrow> bool" where
  "inWindow p day t \<longleftrightarrow>
     weekdayOf day \<in> activeDays p \<and>
     fst (occurrenceWindow p day) \<le> t \<and> t \<le> snd (occurrenceWindow p day)"

text \<open>
  Modelled from the spec: the occurrence whose window contains an instant (section 4.2,
  \<open>open \<le> t \<le> close\<close>), the earliest one if several do. Only the days from the first
  whose close is not before \<open>t\<close> to the last whose open is not after \<open>t\<close> can hold it.
\<close>

definition openOccurrence :: "WeeklyPattern \<Rightarrow> int \<Rightarrow> int option" where
  "openOccurrence p t =
     find (\<lambda>day. inWindow p day t)
       [- ((timeOfDay p - timezoneOffset p - t) div 86400) ..
        (t - timeOfDay p + timezoneOffset p + submissionWindow p) div 86400]"

text \<open>
  Modelled from the spec: \<open>recordConfirmation\<close> of section 4.2. It fails with
  \<open>NoOpenWindow\<close> outside every open window and otherwise inserts the occurrence's
  index into the set of confirmed occurrences.
\<close>

definition recordConfirmation :: "int \<Rightarrow> AlarmSchedule \<Rightarrow> error + AlarmSchedule" where
  "recordConfirmation t sch =
     (case openOccurrence (pattern sch) t of
        None \<Rightarrow> Inl (Revert ''NoOpenWindow'')
      | Some k \<Rightarrow> Inr (sch\<lparr>confirmedOccurrences := finsert k (confirmedOccurrences sch)\<rparr>))"

text \<open>Modelled from the spec: \<open>confirmedCount\<close> of section 4.2.\<close>

definition confirmedCount :: "AlarmSchedule \<Rightarrow> nat" where
  "confirmedCount sch = fcard (confirmedOccurrences sch)"

section \<open>The contract's storage\<close>

text \<open>
  \<open>CommitmentStatus\<close> is declared with \<open>BaseCommitment\<close>, outside the files at hand;
  these are the members \<open>PartnerAlarmClock\<close> reads and writes. Every statement below
  that concerns the other members is phrased as \<open>status s \<noteq> ACTIVE\<close> or
  \<open>status s \<noteq> INACTIVE\<close>.
\<close>

datatype CommitmentStatus = INACTIVE | ACTIVE | CANCELLED

text \<open>
  \<open>struct Player\<close>. The struct \<open>AlarmSchedule.Schedule\<close> belongs to the library
  \<open>AlarmSchedule\<close>, also outside the files at hand: its type is the parameter \<open>'s\<close>.
\<close>

record 's Player =
  schedule :: 's
  depositAmount :: uint256

text \<open>
  The state variables of the contract, with \<open>balance\<close> for \<open>address(this).balance\<close>.
  A \<open>mapping\<close> yields the zero value at a key never written, so it is a total function.
\<close>

record 's PartnerAlarmClock =
  status :: CommitmentStatus
  deploymentHub :: address
  players :: "address \<Rightarrow> 's Player"
  alarmTime :: uint256
  alarmActiveDays :: "uint8 list"
  submissionWindow :: uint256
  timezoneOffset :: int256
  betAmount :: uint256
  player1 :: address
  player2 :: address
  missedAlarmPenalty :: uint256
  balance :: uint256

text \<open>
  What the contract calls and does not define: the functions of the library
  \<open>AlarmSchedule\<close> (each reads \<open>block.timestamp\<close>, the first argument here), the hub's
  \<open>emitUserJoined\<close> (\<open>None\<close> when it returns, the error when it reverts), and whether an
  address accepts the ether a \<open>transfer\<close> sends it.
\<close>

record 's Env =
  AlarmSchedule_init :: "uint256 \<Rightarrow> uint8 list \<Rightarrow> uint256 \<Rightarrow> int256 \<Rightarrow> error + 's"
  AlarmSchedule_start :: "uint256 \<Rightarrow> 's \<Rightarrow> error + 's"
  AlarmSchedule_recordEntry :: "uint256 \<Rightarrow> 's \<Rightarrow> error + 's"
  AlarmSchedule_missedDeadlines :: "uint256 \<Rightarrow> 's \<Rightarrow> error + uint256"
  hub_emitUserJoined :: "address \<Rightarrow> error option"
  accepts :: "address \<Rightarrow> uint256 \<Rightarrow> bool"

definition set_depositAmount ::
  "address \<Rightarrow> uint256 \<Rightarrow> 's PartnerAlarmClock \<Rightarrow> 's PartnerAlarmClock" where
  "set_depositAmount a v s = s\<lparr>players := (players s)(a := (players s a)\<lparr>depositAmount := v\<rparr>)\<rparr>"

definition set_schedule ::
  "address \<Rightarrow> 's \<Rightarrow> 's PartnerAlarmClock \<Rightarrow> 's PartnerAlarmClock" where
  "set_schedule a sch s = s\<lparr>players := (players s)(a := (players s a)\<lparr>schedule := sch\<rparr>)\<rparr>"

text \<open>
  \<open>payable(a).transfer(v)\<close>: reverts when the contract holds less than \<open>v\<close> or the
  recipient does not accept the payment.
\<close>

definition transfer ::
  "'s Env \<Rightarrow> address \<Rightarrow> uint256 \<Rightarrow> 's PartnerAlarmClock \<Rightarrow> error + 's PartnerAlarmClock" where
  "transfer E a v s =
     (if balance s < v then Inl (Revert [])
      else if \<not> accepts E a v then Inl (Revert [])
      else Inr (s\<lparr>balance := balance s - v\<rparr>))"

section \<open>The contract's functions\<close>

text \<open>\<open>getPenaltyAmount(player)\<close>, a view.\<close>

definition getPenaltyAmount ::
  "'s Env \<Rightarrow> uint256 \<Rightarrow> 's PartnerAlarmClock \<Rightarrow> address \<Rightarrow> error + uint256" where
  "getPenaltyAmount E now s player =
     (case AlarmSchedule_missedDeadlines E now (schedule (players s player)) of
        Inl e \<Rightarrow> Inl e
      | Inr numMissedDeadlines \<Rightarrow>
          (case checked_mul numMissedDeadlines (missedAlarmPenalty s) of
             Inl e \<Rightarrow> Inl e
           | Inr penaltyVal \<Rightarrow>
               if penaltyVal > depositAmount (players s player)
               then Inr (depositAmount (players s player))
               else Inr penaltyVal))"

text \<open>\<open>getPlayerBalance(player)\<close>, a view.\<close>

definition getPlayerBalance ::
  "'s Env \<Rightarrow> uint256 \<Rightarrow> 's PartnerAlarmClock \<Rightarrow> address \<Rightarrow> error + uint256" where
  "getPlayerBalance E now s player =
     (case getPenaltyAmount E now s player of
        Inl e \<Rightarrow> Inl e
      | Inr penalty \<Rightarrow> checked_sub (depositAmount (players s player)) penalty)"

text \<open>
  \<open>init(data)\<close>, payable, run once on a fresh clone (the modifier \<open>initializer\<close>): it
  starts from empty storage, given here as \<open>s0\<close>, and the ether the contract holds is
  the value sent along. \<open>hub\<close> is \<open>msg.sender\<close>, \<open>origin\<close> is \<open>tx.origin\<close>, and the
  six values after them are the decoded \<open>data\<close>.
\<close>

definition init ::
  "'s Env \<Rightarrow> 's PartnerAlarmClock \<Rightarrow> address \<Rightarrow> address \<Rightarrow> uint256 \<Rightarrow>
   uint256 \<Rightarrow> uint8 list \<Rightarrow> uint256 \<Rightarrow> uint256 \<Rightarrow> int256 \<Rightarrow> address \<Rightarrow>
   error + 's PartnerAlarmClock" where
  "init E s0 hub origin msg_value aTime aDays penalty window tzOffset p2 =
     (if \<not> msg_value > 0 then Inl (Revert ''BET_VALUE_REQUIRED'')
      else
        let s = s0\<lparr>balance := msg_value, deploymentHub := hub, status := INACTIVE,
                    betAmount := msg_value, player1 := origin,
                    alarmTime := aTime, alarmActiveDays := aDays,
                    missedAlarmPenalty := penalty, submissionWindow := window,
                    timezoneOffset := tzOffset, player2 := p2\<rparr>;
            s = set_depositAmount (player1 s) msg_value s
        in case AlarmSchedule_init E (alarmTime s) (alarmActiveDays s) (submissionWindow s)
                  (timezoneOffset s) of
             Inl e \<Rightarrow> Inl e
           | Inr sch1 \<Rightarrow>
               (let s = set_schedule (player1 s) sch1 s
                in (case AlarmSchedule_init E (alarmTime s) (alarmActiveDays s)
                           (submissionWindow s) (timezoneOffset s) of
                      Inl e \<Rightarrow> Inl e
                    | Inr sch2 \<Rightarrow> Inr (set_schedule (player2 s) sch2 s))))"

text \<open>
  \<open>start()\<close>, payable: the value sent is part of the contract's balance when the body
  runs.
\<close>

definition start ::
  "'s Env \<Rightarrow> uint256 \<Rightarrow> address \<Rightarrow> uint256 \<Rightarrow> 's PartnerAlarmClock \<Rightarrow>
   error + 's PartnerAlarmClock" where
  "start E now msg_sender msg_value s0 =
     (let s = s0\<lparr>balance := balance s0 + msg_value\<rparr>
      in if status s \<noteq> INACTIVE then Inl (Revert ''ALREADY_STARTED'')
         else if \<not> msg_value \<ge> betAmount s then Inl (Revert ''INSUFFICIENT_FUNDS_SENT'')
         else if msg_sender \<noteq> player2 s then Inl (Revert ''ONLY_PLAYER_2_CAN_START'')
         else
           case AlarmSchedule_start E now (schedule (players s (player1 s))) of
             Inl e \<Rightarrow> Inl e
           | Inr sch1 \<Rightarrow>
               (let s = set_schedule (player1 s) sch1 s
                in (case AlarmSchedule_start E now (schedule (players s (player2 s))) of
                      Inl e \<Rightarrow> Inl e
                    | Inr sch2 \<Rightarrow>
                        (let s = set_schedule (player2 s) sch2 s
                         in (case checked_add (depositAmount (players s (player2 s)))
                                    msg_value of
                               Inl e \<Rightarrow> Inl e
                             | Inr d \<Rightarrow>
                                 (let s = set_depositAmount (player2 s) d s
                                  in (case hub_emitUserJoined E (player2 s) of
                                        Some e \<Rightarrow> Inl e
                                      | None \<Rightarrow> Inr (s\<lparr>status := ACTIVE\<rparr>))))))))"

text \<open>\<open>addToBalance(player)\<close>, payable, with the modifier \<open>onlyPlayer\<close>.\<close>

definition addToBalance ::
  "address \<Rightarrow> uint256 \<Rightarrow> address \<Rightarrow> 's PartnerAlarmClock \<Rightarrow> error + 's PartnerAlarmClock" where
  "addToBalance msg_sender msg_value player s0 =
     (let s = s0\<lparr>balance := balance s0 + msg_value\<rparr>
      in if \<not> (msg_sender = player1 s \<or> msg_sender = player2 s)
         then Inl (Revert ''ONLY_PLAYER_ACTION'')
         else if status s \<noteq> ACTIVE then Inl (Revert ''NOT_ACTIVE'')
         else if \<not> (player = player1 s \<or> player = player2 s)
         then Inl (Revert ''INVALID_PLAYER'')
         else
           case checked_add (depositAmount (players s msg_sender)) msg_value of
             Inl e \<Rightarrow> Inl e
           | Inr d \<Rightarrow> Inr (set_depositAmount msg_sender d s))"

text \<open>\<open>submitConfirmation()\<close>, with the modifier \<open>onlyPlayer\<close>; not payable.\<close>

definition submitConfirmation ::
  "'s Env \<Rightarrow> uint256 \<Rightarrow> address \<Rightarrow> 's PartnerAlarmClock \<Rightarrow> error + 's PartnerAlarmClock" where
  "submitConfirmation E now msg_sender s =
     (if \<not> (msg_sender = player1 s \<or> msg_sender = player2 s)
      then Inl (Revert ''ONLY_PLAYER_ACTION'')
      else
        case AlarmSchedule_recordEntry E now (schedule (players s msg_sender)) of
          Inl e \<Rightarrow> Inl e
        | Inr sch \<Rightarrow> Inr (set_schedule msg_sender sch s))"

text \<open>
  \<open>withdraw()\<close>, with the modifier \<open>onlyPlayer\<close>; not payable. Besides the final state
  the model returns the two transfers in the order the code makes them, each with the
  storage as it is when the transfer is invoked, the recipient and the amount.
\<close>

type_synonym 's sent = "'s PartnerAlarmClock \<times> address \<times> uint256"

definition withdraw ::
  "'s Env \<Rightarrow> uint256 \<Rightarrow> address \<Rightarrow> 's PartnerAlarmClock \<Rightarrow>
   error + ('s PartnerAlarmClock \<times> 's sent list)" where
  "withdraw E now msg_sender s =
     (if \<not> (msg_sender = player1 s \<or> msg_sender = player2 s)
      then Inl (Revert ''ONLY_PLAYER_ACTION'')
      else
        let otherPlayer = (if msg_sender = player1 s then player2 s else player1 s)
        in case (if status s = ACTIVE
                 then (case getPenaltyAmount E now s msg_sender of
                         Inl e \<Rightarrow> Inl e
                       | Inr sp \<Rightarrow>
                           (case getPenaltyAmount E now s otherPlayer of
                              Inl e \<Rightarrow> Inl e
                            | Inr op \<Rightarrow> Inr (sp, op)))
                 else Inr (0, 0)) of
             Inl e \<Rightarrow> Inl e
           | Inr (senderPenalty, otherPlayerPenalty) \<Rightarrow>
               (case checked_add (depositAmount (players s otherPlayer)) senderPenalty of
                  Inl e \<Rightarrow> Inl e
                | Inr t \<Rightarrow>
                    (case checked_sub t otherPlayerPenalty of
                       Inl e \<Rightarrow> Inl e
                     | Inr otherPlayerWithdrawAmount \<Rightarrow>
                         (let s1 = set_depositAmount msg_sender 0 s;
                              s2 = set_depositAmount otherPlayer 0 s1
                          in (case transfer E otherPlayer otherPlayerWithdrawAmount s2 of
                                Inl e \<Rightarrow> Inl e
                              | Inr s3 \<Rightarrow>
                                  (case transfer E msg_sender (balance s3) s3 of
                                     Inl e \<Rightarrow> Inl e
                                   | Inr s4 \<Rightarrow>
                                       Inr (s4\<lparr>status := CANCELLED\<rparr>,
                                            [(s2, otherPlayer, otherPlayerWithdrawAmount),
                                             (s3, msg_sender, balance s3)])))))))"

section \<open>Notions used to state the properties\<close>

text \<open>The player who is not the caller, as \<open>withdraw\<close> computes it.\<close>

definition otherPlayerOf :: "'s PartnerAlarmClock \<Rightarrow> address \<Rightarrow> address" where
  "otherPlayerOf s a = (if a = player1 s then player2 s else player1 s)"

text \<open>
  The two players are different accounts and the contract holds exactly their two
  deposits. \<open>init\<close> establishes this and every function of the contract keeps it
  (lemmas \<open>init_funded\<close>, \<open>start_funded\<close>, \<open>addToBalance_funded\<close>,
  \<open>submitConfirmation_funded\<close>, \<open>withdraw_funded\<close>), as long as ether reaches the
  contract through its payable functions only.
\<close>

definition funded :: "'s PartnerAlarmClock \<Rightarrow> bool" where
  "funded s \<longleftrightarrow>
     player1 s \<noteq> player2 s \<and>
     unat (balance s) = unat (depositAmount (players s (player1 s))) +
                        unat (depositAmount (players s (player2 s)))"

text \<open>The ether a list of transfers pays to one address.\<close>

definition paid_to :: "address \<Rightarrow> 's sent list \<Rightarrow> nat" where
  "paid_to a sent = sum_list (map (\<lambda>(_, _, v). unat v) (filter (\<lambda>(_, r, _). r = a) sent))"

text \<open>
  The two penalties \<open>withdraw\<close> applies for the caller \<open>a\<close>: those of
  \<open>getPenaltyAmount\<close> when the status is \<open>ACTIVE\<close>, zero otherwise.
\<close>

definition penalties ::
  "'s Env \<Rightarrow> uint256 \<Rightarrow> 's PartnerAlarmClock \<Rightarrow> address \<Rightarrow> uint256 \<Rightarrow> uint256 \<Rightarrow> bool" where
  "penalties E now s a sp op \<longleftrightarrow>
     (if status s = ACTIVE
      then getPenaltyAmount E now s a = Inr sp \<and>
           getPenaltyAmount E now s (otherPlayerOf s a) = Inr op
      else sp = 0 \<and> op = 0)"

section \<open>Concrete inputs\<close>

text \<open>
  An environment in which a schedule is just the number of deadlines its owner has
  missed, every library call and the hub succeed, and every address accepts ether.
\<close>

definition test_env :: "uint256 Env" where
  "test_env =
     \<lparr>AlarmSchedule_init = (\<lambda>_ _ _ _. Inr 0),
      AlarmSchedule_start = (\<lambda>_ sch. Inr sch),
      AlarmSchedule_recordEntry = (\<lambda>_ sch. Inr sch),
      AlarmSchedule_missedDeadlines = (\<lambda>_ sch. Inr sch),
      hub_emitUserJoined = (\<lambda>_. None),
      accepts = (\<lambda>_ _. True)\<rparr>"

text \<open>
  A contract between the addresses 1 and 2, at 07:00 on three days with a window of
  half an hour, with the given status, deposits, missed deadlines and penalty; it holds
  the two deposits.
\<close>

definition test_state ::
  "CommitmentStatus \<Rightarrow> uint256 \<Rightarrow> uint256 \<Rightarrow> uint256 \<Rightarrow> uint256 \<Rightarrow> uint256 \<Rightarrow>
   uint256 PartnerAlarmClock" where
  "test_state st d1 m1 d2 m2 penalty =
     \<lparr>status = st, deploymentHub = 9,
      players = (\<lambda>a. if a = 1 then \<lparr>schedule = m1, depositAmount = d1\<rparr>
                      else if a = 2 then \<lparr>schedule = m2, depositAmount = d2\<rparr>
                      else \<lparr>schedule = 0, depositAmount = 0\<rparr>),
      alarmTime = 25200, alarmActiveDays = [2, 4, 6], submissionWindow = 1800,
      timezoneOffset = 0, betAmount = d1, player1 = 1, player2 = 2,
      missedAlarmPenalty = penalty, balance = d1 + d2\<rparr>"

text \<open>
  The pattern of the specification's scenarios A and B (07:00 on Monday, Wednesday and
  Friday, a window of half an hour, no offset), a schedule on it with nothing confirmed,
  and a contract between the addresses 1 and 2 whose players follow that schedule, with
  the library's \<open>recordEntry\<close> as modelled from the specification.
\<close>

definition scenario_pattern :: WeeklyPattern where
  "scenario_pattern =
     \<lparr>timeOfDay = 25200, activeDays = {Mon, Wed, Fri}, submissionWindow = 1800,
      timezoneOffset = 0\<rparr>"

definition scenario_schedule :: AlarmSchedule where
  "scenario_schedule =
     \<lparr>pattern = scenario_pattern, startTime = Some 367200, confirmedOccurrences = {||}\<rparr>"

definition scenario_env :: "AlarmSchedule Env" where
  "scenario_env =
     \<lparr>AlarmSchedule_init = (\<lambda>_ _ _ _. Inr scenario_schedule),
      AlarmSchedule_start = (\<lambda>_ sch. Inr sch),
      AlarmSchedule_recordEntry = (\<lambda>now sch. recordConfirmation (uint now) sch),
      AlarmSchedule_missedDeadlines = (\<lambda>_ _. Inr 0),
      hub_emitUserJoined = (\<lambda>_. None),
      accepts = (\<lambda>_ _. True)\<rparr>"

definition scenario_state :: "AlarmSchedule PartnerAlarmClock" where
  "scenario_state =
     \<lparr>status = ACTIVE, deploymentHub = 9,
      players = (\<lambda>a. if a = 1 \<or> a = 2 then \<lparr>schedule = scenario_schedule, depositAmount = 10\<rparr>
                      else \<lparr>schedule = scenario_schedule, depositAmount = 0\<rparr>),
      alarmTime = 25200, alarmActiveDays = [2, 4, 6], submissionWindow = 1800,
      timezoneOffset = 0, betAmount = 10, player1 = 1, player2 = 2,
      missedAlarmPenalty = 3, balance = 20\<rparr>"

section \<open>Checked arithmetic and storage updates\<close>

lemma checked_add_Inr_iff:
  "checked_add a b = Inr c \<longleftrightarrow> unat a + unat b < 2 ^ 256 \<and> c = a + b"
  by (auto simp: checked_add_def)

lemma checked_sub_Inr_iff: "checked_sub a b = Inr c \<longleftrightarrow> b \<le> a \<and> c = a - b"
  by (auto simp: checked_sub_def)

lemma checked_mul_Inr_iff:
  "checked_mul a b = Inr c \<longleftrightarrow> unat a * unat b < 2 ^ 256 \<and> c = a * b"
  by (auto simp: checked_mul_def)

lemma unat_plus_fits:
  fixes a b :: uint256
  shows "unat a + unat b < 2 ^ 256 \<Longrightarrow> unat (a + b) = unat a + unat b"
  by (simp add: unat_add_lem [THEN iffD1])

lemma unat_times_fits:
  fixes a b :: uint256
  shows "unat a * unat b < 2 ^ 256 \<Longrightarrow> unat (a * b) = unat a * unat b"
  by (simp add: unat_mult_lem [THEN iffD1])

lemma unat_minus_le:
  fixes a b :: uint256
  shows "b \<le> a \<Longrightarrow> unat (a - b) = unat a - unat b"
  by (simp add: unat_sub)

lemma set_depositAmount_fields [simp]:
  "status (set_depositAmount a v s) = status s"
  "balance (set_depositAmount a v s) = balance s"
  "player1 (set_depositAmount a v s) = player1 s"
  "player2 (set_depositAmount a v s) = player2 s"
  "betAmount (set_depositAmount a v s) = betAmount s"
  "missedAlarmPenalty (set_depositAmount a v s) = missedAlarmPenalty s"
  "depositAmount (players (set_depositAmount a v s) b) =
     (if b = a then v else depositAmount (players s b))"
  "schedule (players (set_depositAmount a v s) b) = schedule (players s b)"
  by (simp_all add: set_depositAmount_def)

lemma set_schedule_fields [simp]:
  "status (set_schedule a sch s) = status s"
  "balance (set_schedule a sch s) = balance s"
  "player1 (set_schedule a sch s) = player1 s"
  "player2 (set_schedule a sch s) = player2 s"
  "betAmount (set_schedule a sch s) = betAmount s"
  "missedAlarmPenalty (set_schedule a sch s) = missedAlarmPenalty s"
  "depositAmount (players (set_schedule a sch s) b) = depositAmount (players s b)"
  "schedule (players (set_schedule a sch s) b) =
     (if b = a then sch else schedule (players s b))"
  by (simp_all add: set_schedule_def)

lemma bind_Inr_iff:
  "(case x of Inl e \<Rightarrow> Inl e | Inr v \<Rightarrow> f v) = Inr r \<longleftrightarrow> (\<exists>v. x = Inr v \<and> f v = Inr r)"
  by (cases x) auto

lemma bind_pair_Inr_iff:
  "(case x of Inl e \<Rightarrow> Inl e | Inr (u, v) \<Rightarrow> f u v) = Inr r \<longleftrightarrow>
   (\<exists>u v. x = Inr (u, v) \<and> f u v = Inr r)"
  by (cases x) auto

lemma transfer_Inr_iff:
  "transfer E a v s = Inr s' \<longleftrightarrow>
   v \<le> balance s \<and> accepts E a v \<and> s' = s\<lparr>balance := balance s - v\<rparr>"
  by (auto simp: transfer_def)

section \<open>Penalties\<close>

lemma getPenaltyAmount_le:
  "getPenaltyAmount E now s p = Inr v \<Longrightarrow> v \<le> depositAmount (players s p)"
  by (auto simp: getPenaltyAmount_def split: sum.splits if_splits)

lemma penalties_le:
  "penalties E now s a sp op \<Longrightarrow>
   sp \<le> depositAmount (players s a) \<and> op \<le> depositAmount (players s (otherPlayerOf s a))"
  by (auto simp: penalties_def dest: getPenaltyAmount_le split: if_splits)

section \<open>What a successful \<open>withdraw\<close> is\<close>

lemma penalties_iff:
  "(if status s = ACTIVE
    then (case getPenaltyAmount E now s a of
            Inl e \<Rightarrow> Inl e
          | Inr sp \<Rightarrow>
              (case getPenaltyAmount E now s (otherPlayerOf s a) of
                 Inl e \<Rightarrow> Inl e
               | Inr op \<Rightarrow> Inr (sp, op)))
    else Inr (0, 0)) = Inr (sp, op) \<longleftrightarrow> penalties E now s a sp op"
  by (auto simp: penalties_def bind_Inr_iff)

lemma withdraw_Inr_iff:
  "withdraw E now a s = Inr (s', sent) \<longleftrightarrow>
     (a = player1 s \<or> a = player2 s) \<and>
     (\<exists>sp op.
        penalties E now s a sp op \<and>
        unat (depositAmount (players s (otherPlayerOf s a))) + unat sp < 2 ^ 256 \<and>
        op \<le> depositAmount (players s (otherPlayerOf s a)) + sp \<and>
        (let w = depositAmount (players s (otherPlayerOf s a)) + sp - op;
             s2 = set_depositAmount (otherPlayerOf s a) 0 (set_depositAmount a 0 s);
             s3 = s2\<lparr>balance := balance s - w\<rparr>
         in w \<le> balance s \<and> accepts E (otherPlayerOf s a) w \<and>
            accepts E a (balance s - w) \<and>
            s' = s3\<lparr>balance := 0, status := CANCELLED\<rparr> \<and>
            sent = [(s2, otherPlayerOf s a, w), (s3, a, balance s - w)]))"
proof (cases "a = player1 s \<or> a = player2 s")
  case False
  then show ?thesis by (simp add: withdraw_def)
next
  case True
  have other: "(if a = player1 s then player2 s else player1 s) = otherPlayerOf s a"
    by (simp add: otherPlayerOf_def)
  have "withdraw E now a s = Inr (s', sent) \<longleftrightarrow>
        (\<exists>sp op. penalties E now s a sp op \<and>
           (case checked_add (depositAmount (players s (otherPlayerOf s a))) sp of
              Inl e \<Rightarrow> Inl e
            | Inr t \<Rightarrow>
                (case checked_sub t op of
                   Inl e \<Rightarrow> Inl e
                 | Inr w \<Rightarrow>
                     (case transfer E (otherPlayerOf s a) w
                             (set_depositAmount (otherPlayerOf s a) 0
                                (set_depositAmount a 0 s)) of
                        Inl e \<Rightarrow> Inl e
                      | Inr s3 \<Rightarrow>
                          (case transfer E a (balance s3) s3 of
                             Inl e \<Rightarrow> Inl e
                           | Inr s4 \<Rightarrow>
                               Inr (s4\<lparr>status := CANCELLED\<rparr>,
                                    [(set_depositAmount (otherPlayerOf s a) 0
                                        (set_depositAmount a 0 s), otherPlayerOf s a, w),
                                     (s3, a, balance s3)]))))) = Inr (s', sent))"
    using True unfolding withdraw_def other Let_def
    by (simp only: bind_pair_Inr_iff penalties_iff not_True_eq_False if_False simp_thms)
  then show ?thesis
    using True
    by (simp add: Let_def bind_Inr_iff checked_add_Inr_iff checked_sub_Inr_iff transfer_Inr_iff
          eq_commute [of s'] eq_commute [of sent] cong: conj_cong)
qed

lemma withdraw_succeeds:
  assumes f: "funded s" and pl: "a = player1 s \<or> a = player2 s"
    and pen: "penalties E now s a sp op"
    and acc: "\<forall>v. accepts E a v" "\<forall>v. accepts E (otherPlayerOf s a) v"
  shows "\<exists>s' sent. withdraw E now a s = Inr (s', sent)"
proof -
  let ?da = "depositAmount (players s a)"
  let ?do = "depositAmount (players s (otherPlayerOf s a))"
  from penalties_le [OF pen] have le: "unat sp \<le> unat ?da" "unat op \<le> unat ?do"
    by (simp_all add: word_le_nat_alt)
  from f pl have bal: "unat (balance s) = unat ?da + unat ?do"
    by (auto simp: funded_def otherPlayerOf_def)
  have lt: "unat (balance s) < 2 ^ 256"
    using unsigned_less [of "balance s", where ?'a = nat] by simp
  have fits: "unat ?do + unat sp < 2 ^ 256" using le bal lt by linarith
  then have u1: "unat (?do + sp) = unat ?do + unat sp" by (rule unat_plus_fits)
  have ople: "op \<le> ?do + sp" using le u1 by (simp add: word_le_nat_alt)
  then have u2: "unat (?do + sp - op) = unat ?do + unat sp - unat op"
    using u1 by (simp add: unat_minus_le)
  have wle: "?do + sp - op \<le> balance s" using u2 bal le by (simp add: word_le_nat_alt)
  show ?thesis
    unfolding withdraw_Inr_iff Let_def using pl pen fits ople wle acc by blast
qed

section \<open>Evaluating the concrete inputs\<close>

lemma test_env_fields [simp]:
  "AlarmSchedule_missedDeadlines test_env now sch = Inr sch"
  "AlarmSchedule_start test_env now sch = Inr sch"
  "AlarmSchedule_recordEntry test_env now sch = Inr sch"
  "hub_emitUserJoined test_env a = None"
  "accepts test_env a v"
  by (simp_all add: test_env_def)

lemma test_state_fields [simp]:
  "status (test_state st d1 m1 d2 m2 p) = st"
  "player1 (test_state st d1 m1 d2 m2 p) = 1"
  "player2 (test_state st d1 m1 d2 m2 p) = 2"
  "betAmount (test_state st d1 m1 d2 m2 p) = d1"
  "missedAlarmPenalty (test_state st d1 m1 d2 m2 p) = p"
  "balance (test_state st d1 m1 d2 m2 p) = d1 + d2"
  "players (test_state st d1 m1 d2 m2 p) 1 = \<lparr>schedule = m1, depositAmount = d1\<rparr>"
  "players (test_state st d1 m1 d2 m2 p) 2 = \<lparr>schedule = m2, depositAmount = d2\<rparr>"
  by (simp_all add: test_state_def)

section \<open>Settlement\<close>

text \<open>
  C1. Settlement is zero-sum. In a contract that holds the deposits of its two distinct
  players, whenever a player's \<open>withdraw\<close> succeeds, what it transfers to the caller plus
  what it transfers to the other player is the sum of the two deposits stored before the
  call. And it does succeed as soon as the penalties can be computed and both players
  accept ether: no arithmetic step of the settlement itself can fail.
\<close>

theorem withdraw_zero_sum:
  assumes "funded s" and "msg_sender = player1 s \<or> msg_sender = player2 s"
  shows "(\<forall>s' sent. withdraw E now msg_sender s = Inr (s', sent) \<longrightarrow>
            paid_to msg_sender sent + paid_to (otherPlayerOf s msg_sender) sent =
            unat (depositAmount (players s msg_sender)) +
            unat (depositAmount (players s (otherPlayerOf s msg_sender)))) \<and>
         ((\<exists>sp op. penalties E now s msg_sender sp op) \<and>
          (\<forall>v. accepts E msg_sender v) \<and> (\<forall>v. accepts E (otherPlayerOf s msg_sender) v) \<longrightarrow>
          (\<exists>s' sent. withdraw E now msg_sender s = Inr (s', sent)))"
proof (intro conjI allI impI)
  fix s' sent
  assume w: "withdraw E now msg_sender s = Inr (s', sent)"
  let ?o = "otherPlayerOf s msg_sender"
  from assms have ne: "?o \<noteq> msg_sender" by (auto simp: funded_def otherPlayerOf_def)
  from assms have bal: "unat (balance s) = unat (depositAmount (players s msg_sender)) +
      unat (depositAmount (players s ?o))"
    by (auto simp: funded_def otherPlayerOf_def)
  from w obtain w s2 s3 where wle: "w \<le> balance s"
    and sent: "sent = [(s2, ?o, w), (s3, msg_sender, balance s - w)]"
    unfolding withdraw_Inr_iff Let_def by blast
  have "paid_to msg_sender sent + paid_to ?o sent = unat (balance s - w) + unat w"
    using ne by (simp add: sent paid_to_def)
  also have "\<dots> = unat (balance s)" using wle by (simp add: unat_minus_le word_le_nat_alt)
  finally show "paid_to msg_sender sent + paid_to ?o sent =
      unat (depositAmount (players s msg_sender)) + unat (depositAmount (players s ?o))"
    using bal by simp
next
  assume "(\<exists>sp op. penalties E now s msg_sender sp op) \<and>
          (\<forall>v. accepts E msg_sender v) \<and> (\<forall>v. accepts E (otherPlayerOf s msg_sender) v)"
  then show "\<exists>s' sent. withdraw E now msg_sender s = Inr (s', sent)"
    using withdraw_succeeds [OF assms] by blast
qed

theorem withdraw_zero_sum_witness:
  "funded (test_state ACTIVE 10 2 10 0 3) \<and>
   (\<exists>s' sent. withdraw test_env 0 1 (test_state ACTIVE 10 2 10 0 3) = Inr (s', sent) \<and>
      paid_to 1 sent + paid_to 2 sent = 20)"
proof -
  let ?s = "test_state ACTIVE 10 2 10 0 3"
  have f: "funded ?s" by (simp add: funded_def)
  have p: "(1::address) = player1 ?s \<or> 1 = player2 ?s" by simp
  have pen: "penalties test_env 0 ?s 1 6 0"
    by (simp add: penalties_def otherPlayerOf_def getPenaltyAmount_def checked_mul_def)
  have o: "otherPlayerOf ?s 1 = 2" by (simp add: otherPlayerOf_def)
  from withdraw_zero_sum [OF f p, of test_env 0] pen show ?thesis
    using f by (auto simp: o)
qed

text \<open>
  C3. On a successful \<open>withdraw\<close> the other player is sent
  \<open>other.deposit + callerPenalty - otherPenalty\<close>, the caller is sent
  \<open>caller.deposit - callerPenalty + otherPenalty\<close>, both stored deposits are zero
  afterwards and the status is \<open>CANCELLED\<close>, the contract's name for the settled state.
\<close>

theorem withdraw_payouts:
  assumes "funded s" and "msg_sender = player1 s \<or> msg_sender = player2 s"
  shows "(\<forall>s' sent. withdraw E now msg_sender s = Inr (s', sent) \<longrightarrow>
            (\<exists>sp op s2 s3 w c.
               penalties E now s msg_sender sp op \<and>
               sent = [(s2, otherPlayerOf s msg_sender, w), (s3, msg_sender, c)] \<and>
               int (unat w) = int (unat (depositAmount (players s (otherPlayerOf s msg_sender))))
                              + int (unat sp) - int (unat op) \<and>
               int (unat c) = int (unat (depositAmount (players s msg_sender)))
                              - int (unat sp) + int (unat op) \<and>
               depositAmount (players s' msg_sender) = 0 \<and>
               depositAmount (players s' (otherPlayerOf s msg_sender)) = 0 \<and>
               status s' = CANCELLED)) \<and>
         ((\<exists>sp op. penalties E now s msg_sender sp op) \<and>
          (\<forall>v. accepts E msg_sender v) \<and> (\<forall>v. accepts E (otherPlayerOf s msg_sender) v) \<longrightarrow>
          (\<exists>s' sent. withdraw E now msg_sender s = Inr (s', sent)))"
proof (intro conjI allI impI)
  fix s' sent
  assume w: "withdraw E now msg_sender s = Inr (s', sent)"
  let ?o = "otherPlayerOf s msg_sender"
  let ?da = "depositAmount (players s msg_sender)"
  let ?do = "depositAmount (players s ?o)"
  from assms have bal: "unat (balance s) = unat ?da + unat ?do"
    by (auto simp: funded_def otherPlayerOf_def)
  from w obtain sp op where pen: "penalties E now s msg_sender sp op"
    and fits: "unat ?do + unat sp < 2 ^ 256" and ople: "op \<le> ?do + sp"
    and wle: "?do + sp - op \<le> balance s"
    and s': "s' = (set_depositAmount ?o 0 (set_depositAmount msg_sender 0 s))
                  \<lparr>balance := balance s - (?do + sp - op)\<rparr>\<lparr>balance := 0, status := CANCELLED\<rparr>"
    and sent: "sent = [(set_depositAmount ?o 0 (set_depositAmount msg_sender 0 s), ?o, ?do + sp - op),
                       ((set_depositAmount ?o 0 (set_depositAmount msg_sender 0 s))
                          \<lparr>balance := balance s - (?do + sp - op)\<rparr>, msg_sender,
                        balance s - (?do + sp - op))]"
    unfolding withdraw_Inr_iff Let_def by blast
  have u1: "unat (?do + sp) = unat ?do + unat sp" using fits by (rule unat_plus_fits)
  have u2: "unat (?do + sp - op) = unat ?do + unat sp - unat op"
    using ople u1 by (simp add: unat_minus_le)
  have ole: "unat op \<le> unat ?do + unat sp" using ople u1 by (simp add: word_le_nat_alt)
  have u3: "unat (balance s - (?do + sp - op)) = unat (balance s) - unat (?do + sp - op)"
    using wle by (rule unat_minus_le)
  have wle': "unat (?do + sp - op) \<le> unat (balance s)" using wle by (simp add: word_le_nat_alt)
  have a1: "int (unat (?do + sp - op)) = int (unat ?do) + int (unat sp) - int (unat op)"
    using u2 ole by linarith
  have a2: "int (unat (balance s - (?do + sp - op))) = int (unat ?da) - int (unat sp) + int (unat op)"
    using u3 wle' a1 bal by linarith
  have z: "depositAmount (players s' msg_sender) = 0" "depositAmount (players s' ?o) = 0"
    "status s' = CANCELLED"
    by (simp_all add: s')
  show "\<exists>sp op s2 s3 w c.
               penalties E now s msg_sender sp op \<and>
               sent = [(s2, otherPlayerOf s msg_sender, w), (s3, msg_sender, c)] \<and>
               int (unat w) = int (unat (depositAmount (players s (otherPlayerOf s msg_sender))))
                              + int (unat sp) - int (unat op) \<and>
               int (unat c) = int (unat (depositAmount (players s msg_sender)))
                              - int (unat sp) + int (unat op) \<and>
               depositAmount (players s' msg_sender) = 0 \<and>
               depositAmount (players s' (otherPlayerOf s msg_sender)) = 0 \<and>
               status s' = CANCELLED"
    using pen sent a1 a2 z by blast
next
  assume "(\<exists>sp op. penalties E now s msg_sender sp op) \<and>
          (\<forall>v. accepts E msg_sender v) \<and> (\<forall>v. accepts E (otherPlayerOf s msg_sender) v)"
  then show "\<exists>s' sent. withdraw E now msg_sender s = Inr (s', sent)"
    using withdraw_succeeds [OF assms] by blast
qed

theorem withdraw_payouts_witness:
  "funded (test_state ACTIVE 10 2 10 0 3) \<and>
   (\<exists>s' s2 s3 w c.
      withdraw test_env 0 1 (test_state ACTIVE 10 2 10 0 3) = Inr (s', [(s2, 2, w), (s3, 1, c)]) \<and>
      int (unat w) = 16 \<and> int (unat c) = 4 \<and> status s' = CANCELLED \<and>
      depositAmount (players s' 1) = 0 \<and> depositAmount (players s' 2) = 0)"
proof -
  let ?s = "test_state ACTIVE 10 2 10 0 3"
  have f: "funded ?s" by (simp add: funded_def)
  have p: "(1::address) = player1 ?s \<or> 1 = player2 ?s" by simp
  have o: "otherPlayerOf ?s 1 = 2" by (simp add: otherPlayerOf_def)
  have pen: "penalties test_env 0 ?s 1 sp op \<longleftrightarrow> sp = 6 \<and> op = 0" for sp op
    by (auto simp: penalties_def o getPenaltyAmount_def checked_mul_def)
  note t = withdraw_payouts [OF f p, of test_env 0]
  from t pen obtain s' sent where w: "withdraw test_env 0 1 ?s = Inr (s', sent)"
    by auto
  with t obtain sp op s2 s3 w c where
    "penalties test_env 0 ?s 1 sp op" "sent = [(s2, otherPlayerOf ?s 1, w), (s3, 1, c)]"
    "int (unat w) = int (unat (depositAmount (players ?s (otherPlayerOf ?s 1))))
                              + int (unat sp) - int (unat op)"
    "int (unat c) = int (unat (depositAmount (players ?s 1))) - int (unat sp) + int (unat op)"
    "depositAmount (players s' 1) = 0" "depositAmount (players s' (otherPlayerOf ?s 1)) = 0"
    "status s' = CANCELLED"
    by blast
  then show ?thesis using f w by (auto simp: pen o)
qed

section \<open>The penalty and the balance query\<close>

lemma getPenaltyAmount_Inr:
  assumes "AlarmSchedule_missedDeadlines E now (schedule (players s player)) = Inr m"
    and "unat m * unat (missedAlarmPenalty s) < 2 ^ 256"
  shows "\<exists>v. getPenaltyAmount E now s player = Inr v \<and>
             unat v = min (unat (depositAmount (players s player)))
                          (unat m * unat (missedAlarmPenalty s))"
  using assms
  by (auto simp: getPenaltyAmount_def checked_mul_def unat_times_fits word_less_nat_alt min_def)

text \<open>
  C2. The penalty is capped at the deposit. When the library reports \<open>m\<close> missed
  deadlines and \<open>m * missedAlarmPenalty\<close> fits in 256 bits, \<open>getPenaltyAmount\<close>
  returns the smaller of the player's deposit and that product, so never more than the
  deposit. When the product does not fit, the checked multiplication reverts and no
  penalty is returned.
\<close>

theorem getPenaltyAmount_capped:
  assumes "AlarmSchedule_missedDeadlines E now (schedule (players s player)) = Inr m"
  shows "(unat m * unat (missedAlarmPenalty s) < 2 ^ 256 \<longrightarrow>
            (\<exists>v. getPenaltyAmount E now s player = Inr v \<and>
                 unat v = min (unat (depositAmount (players s player)))
                              (unat m * unat (missedAlarmPenalty s)))) \<and>
         (\<not> unat m * unat (missedAlarmPenalty s) < 2 ^ 256 \<longrightarrow>
            getPenaltyAmount E now s player = Inl Panic)"
proof (intro conjI impI)
  assume "unat m * unat (missedAlarmPenalty s) < 2 ^ 256"
  with assms show "\<exists>v. getPenaltyAmount E now s player = Inr v \<and>
                 unat v = min (unat (depositAmount (players s player)))
                              (unat m * unat (missedAlarmPenalty s))"
    by (rule getPenaltyAmount_Inr)
next
  assume "\<not> unat m * unat (missedAlarmPenalty s) < 2 ^ 256"
  with assms show "getPenaltyAmount E now s player = Inl Panic"
    by (simp add: getPenaltyAmount_def checked_mul_def)
qed

theorem getPenaltyAmount_capped_witness:
  "AlarmSchedule_missedDeadlines test_env 0
     (schedule (players (test_state ACTIVE 5 3 10 0 10) 1)) = Inr 3 \<and>
   unat (3::uint256) * unat (missedAlarmPenalty (test_state ACTIVE 5 3 10 0 10)) = 30 \<and>
   (\<exists>v. getPenaltyAmount test_env 0 (test_state ACTIVE 5 3 10 0 10) 1 = Inr v \<and> unat v = 5)"
proof -
  have m: "AlarmSchedule_missedDeadlines test_env 0
     (schedule (players (test_state ACTIVE 5 3 10 0 10) 1)) = Inr 3" by simp
  from getPenaltyAmount_capped [OF m] show ?thesis by simp
qed

text \<open>
  The claim as first stated has no such condition. With two missed deadlines and a
  penalty of \<open>2 ^ 255\<close> the product exceeds the deposit of 1, and the call reverts
  instead of returning the deposit.
\<close>

theorem getPenaltyAmount_overflow_counterexample:
  "AlarmSchedule_missedDeadlines test_env 0
     (schedule (players (test_state ACTIVE 1 2 10 0 (2 ^ 255)) 1)) = Inr 2 \<and>
   unat (depositAmount (players (test_state ACTIVE 1 2 10 0 (2 ^ 255)) 1))
     < unat (2::uint256) * unat (missedAlarmPenalty (test_state ACTIVE 1 2 10 0 (2 ^ 255))) \<and>
   getPenaltyAmount test_env 0 (test_state ACTIVE 1 2 10 0 (2 ^ 255)) 1 = Inl Panic"
  by (simp add: getPenaltyAmount_def checked_mul_def)

text \<open>
  C10, as the code has it. Whatever \<open>getPenaltyAmount\<close> returns is at most the
  player's deposit, so the subtraction in \<open>getPlayerBalance\<close> never underflows:
  \<open>getPlayerBalance\<close> returns the deposit less the penalty whenever
  \<open>getPenaltyAmount\<close> returns, and fails only where \<open>getPenaltyAmount\<close> fails, with
  the same error. It returns a value whenever the library reports a count of missed
  deadlines whose product with the penalty fits in 256 bits, and reverts with a panic
  when the product does not fit.
\<close>

theorem getPlayerBalance_no_underflow:
  "(\<forall>v. getPenaltyAmount E now s player = Inr v \<longrightarrow>
        unat v \<le> unat (depositAmount (players s player)) \<and>
        (\<exists>b. getPlayerBalance E now s player = Inr b \<and>
             int (unat b) = int (unat (depositAmount (players s player))) - int (unat v))) \<and>
   (\<forall>e. getPenaltyAmount E now s player = Inl e \<longrightarrow> getPlayerBalance E now s player = Inl e) \<and>
   (\<forall>m. AlarmSchedule_missedDeadlines E now (schedule (players s player)) = Inr m \<and>
        unat m * unat (missedAlarmPenalty s) < 2 ^ 256 \<longrightarrow>
        (\<exists>b. getPlayerBalance E now s player = Inr b)) \<and>
   (\<forall>m. AlarmSchedule_missedDeadlines E now (schedule (players s player)) = Inr m \<and>
        \<not> unat m * unat (missedAlarmPenalty s) < 2 ^ 256 \<longrightarrow>
        getPlayerBalance E now s player = Inl Panic)"
proof (intro conjI allI impI)
  fix v assume v: "getPenaltyAmount E now s player = Inr v"
  from getPenaltyAmount_le [OF v] have le: "v \<le> depositAmount (players s player)" .
  then show le': "unat v \<le> unat (depositAmount (players s player))"
    by (simp add: word_le_nat_alt)
  have b: "getPlayerBalance E now s player = Inr (depositAmount (players s player) - v)"
    using v le by (simp add: getPlayerBalance_def checked_sub_def)
  have "unat (depositAmount (players s player) - v) =
        unat (depositAmount (players s player)) - unat v"
    using le by (rule unat_minus_le)
  with le' have "int (unat (depositAmount (players s player) - v)) =
        int (unat (depositAmount (players s player))) - int (unat v)"
    by linarith
  with b show "\<exists>b. getPlayerBalance E now s player = Inr b \<and>
             int (unat b) = int (unat (depositAmount (players s player))) - int (unat v)"
    by blast
next
  fix e assume "getPenaltyAmount E now s player = Inl e"
  then show "getPlayerBalance E now s player = Inl e" by (simp add: getPlayerBalance_def)
next
  fix m assume "AlarmSchedule_missedDeadlines E now (schedule (players s player)) = Inr m \<and>
        unat m * unat (missedAlarmPenalty s) < 2 ^ 256"
  then obtain v where v: "getPenaltyAmount E now s player = Inr v"
    using getPenaltyAmount_Inr by blast
  from getPenaltyAmount_le [OF v] show "\<exists>b. getPlayerBalance E now s player = Inr b"
    using v by (simp add: getPlayerBalance_def checked_sub_def)
next
  fix m assume "AlarmSchedule_missedDeadlines E now (schedule (players s player)) = Inr m \<and>
        \<not> unat m * unat (missedAlarmPenalty s) < 2 ^ 256"
  then show "getPlayerBalance E now s player = Inl Panic"
    by (simp add: getPlayerBalance_def getPenaltyAmount_def checked_mul_def)
qed

theorem getPlayerBalance_no_underflow_witness:
  "getPenaltyAmount test_env 0 (test_state ACTIVE 10 2 10 0 3) 1 = Inr 6 \<and>
   (\<exists>b. getPlayerBalance test_env 0 (test_state ACTIVE 10 2 10 0 3) 1 = Inr b \<and>
        int (unat b) = 4)"
proof -
  let ?s = "test_state ACTIVE 10 2 10 0 3"
  have p: "getPenaltyAmount test_env 0 ?s 1 = Inr 6"
    by (simp add: getPenaltyAmount_def checked_mul_def)
  from getPlayerBalance_no_underflow [of test_env 0 ?s 1]
  have "\<forall>v. getPenaltyAmount test_env 0 ?s 1 = Inr v \<longrightarrow>
        unat v \<le> unat (depositAmount (players ?s 1)) \<and>
        (\<exists>b. getPlayerBalance test_env 0 ?s 1 = Inr b \<and>
             int (unat b) = int (unat (depositAmount (players ?s 1))) - int (unat v))"
    by (rule conjunct1)
  with p have "\<exists>b. getPlayerBalance test_env 0 ?s 1 = Inr b \<and>
             int (unat b) = int (unat (depositAmount (players ?s 1))) - int (unat (6::uint256))"
    by blast
  with p show ?thesis by simp
qed

text \<open>
  The claim as first stated has the query return in every state. With a deposit of 1,
  two missed deadlines and a penalty of \<open>2 ^ 255\<close> the multiplication inside
  \<open>getPenaltyAmount\<close> overflows and \<open>getPlayerBalance\<close> reverts.
\<close>

theorem getPlayerBalance_overflow_counterexample:
  "depositAmount (players (test_state ACTIVE 1 2 10 0 (2 ^ 255)) 1) = 1 \<and>
   AlarmSchedule_missedDeadlines test_env 0
     (schedule (players (test_state ACTIVE 1 2 10 0 (2 ^ 255)) 1)) = Inr 2 \<and>
   missedAlarmPenalty (test_state ACTIVE 1 2 10 0 (2 ^ 255)) = 2 ^ 255 \<and>
   getPlayerBalance test_env 0 (test_state ACTIVE 1 2 10 0 (2 ^ 255)) 1 = Inl Panic"
  by (simp add: getPlayerBalance_def getPenaltyAmount_def checked_mul_def)

section \<open>What the other successful calls are\<close>

lemma hub_Inr_iff:
  "(case x of Some e \<Rightarrow> Inl e | None \<Rightarrow> Inr y) = Inr r \<longleftrightarrow> x = None \<and> r = y"
  by (cases x) auto

lemma start_Inr_iff:
  "start E now a v s = Inr s' \<longleftrightarrow>
     status s = INACTIVE \<and> betAmount s \<le> v \<and> a = player2 s \<and>
     (\<exists>sch1 sch2.
        AlarmSchedule_start E now (schedule (players s (player1 s))) = Inr sch1 \<and>
        AlarmSchedule_start E now
          (if player2 s = player1 s then sch1 else schedule (players s (player2 s))) = Inr sch2 \<and>
        unat (depositAmount (players s (player2 s))) + unat v < 2 ^ 256 \<and>
        hub_emitUserJoined E (player2 s) = None \<and>
        s' = (set_depositAmount (player2 s) (depositAmount (players s (player2 s)) + v)
                (set_schedule (player2 s) sch2
                   (set_schedule (player1 s) sch1 (s\<lparr>balance := balance s + v\<rparr>))))
             \<lparr>status := ACTIVE\<rparr>)"
  unfolding start_def Let_def
  by (simp add: bind_Inr_iff checked_add_Inr_iff hub_Inr_iff eq_commute [of s'] cong: conj_cong)

lemma addToBalance_Inr_iff:
  "addToBalance a v player s = Inr s' \<longleftrightarrow>
     (a = player1 s \<or> a = player2 s) \<and> status s = ACTIVE \<and>
     (player = player1 s \<or> player = player2 s) \<and>
     unat (depositAmount (players s a)) + unat v < 2 ^ 256 \<and>
     s' = set_depositAmount a (depositAmount (players s a) + v) (s\<lparr>balance := balance s + v\<rparr>)"
  unfolding addToBalance_def Let_def
  by (simp add: bind_Inr_iff checked_add_Inr_iff eq_commute [of s'] cong: conj_cong)

lemma submitConfirmation_Inr_iff:
  "submitConfirmation E now a s = Inr s' \<longleftrightarrow>
     (a = player1 s \<or> a = player2 s) \<and>
     (\<exists>sch. AlarmSchedule_recordEntry E now (schedule (players s a)) = Inr sch \<and>
            s' = set_schedule a sch s)"
  unfolding submitConfirmation_def
  by (simp add: bind_Inr_iff eq_commute [of s'] cong: conj_cong)

lemma init_Inr_iff:
  "init E s0 hub origin v aTime aDays penalty window tz p2 = Inr s \<longleftrightarrow>
     0 < v \<and>
     (\<exists>sch1 sch2.
        AlarmSchedule_init E aTime aDays window tz = Inr sch1 \<and>
        AlarmSchedule_init E aTime aDays window tz = Inr sch2 \<and>
        s = set_schedule p2 sch2 (set_schedule origin sch1 (set_depositAmount origin v
              (s0\<lparr>balance := v, deploymentHub := hub, status := INACTIVE,
                    betAmount := v, player1 := origin,
                    alarmTime := aTime, alarmActiveDays := aDays,
                    missedAlarmPenalty := penalty, submissionWindow := window,
                    timezoneOffset := tz, player2 := p2\<rparr>))))"
  unfolding init_def Let_def
  by (simp add: bind_Inr_iff eq_commute [of s] set_schedule_def set_depositAmount_def
        cong: conj_cong)

section \<open>The contract keeps holding the two deposits\<close>

text \<open>
  \<open>init\<close> on empty storage gives a funded contract, and each function keeps it funded.
  The two payable functions add the value sent to the balance; the side condition says
  that this sum is a balance an account can have.
\<close>

lemma init_funded:
  assumes "\<forall>a. depositAmount (players s0 a) = 0" and "origin \<noteq> p2"
    and "init E s0 hub origin v aTime aDays penalty window tz p2 = Inr s"
  shows "funded s \<and> status s = INACTIVE \<and> betAmount s = v \<and> player1 s = origin \<and> player2 s = p2"
  using assms unfolding init_Inr_iff
  by (auto simp: funded_def set_schedule_def set_depositAmount_def)

lemma start_funded:
  assumes "funded s" and "unat (balance s) + unat v < 2 ^ 256"
    and "start E now a v s = Inr s'"
  shows "funded s'"
  using assms unfolding start_Inr_iff funded_def
  by (auto simp: unat_plus_fits)

lemma addToBalance_funded:
  assumes "funded s" and "unat (balance s) + unat v < 2 ^ 256"
    and "addToBalance a v player s = Inr s'"
  shows "funded s'"
  using assms unfolding addToBalance_Inr_iff funded_def
  by (auto simp: unat_plus_fits)

lemma submitConfirmation_funded:
  assumes "funded s" and "submitConfirmation E now a s = Inr s'"
  shows "funded s'"
  using assms unfolding submitConfirmation_Inr_iff funded_def
  by auto

lemma withdraw_funded:
  assumes "funded s" and "withdraw E now a s = Inr (s', sent)"
  shows "funded s'"
  using assms unfolding withdraw_Inr_iff funded_def Let_def
  by (auto simp: otherPlayerOf_def)

section \<open>Activation\<close>

text \<open>
  C6. \<open>start\<close> succeeds only when the status is \<open>INACTIVE\<close>, the value sent is at
  least \<open>betAmount\<close> (the initiator's stake) and the caller is \<open>player2\<close>. It reverts
  with \<open>ALREADY_STARTED\<close> when the status is not \<open>INACTIVE\<close>, else with
  \<open>INSUFFICIENT_FUNDS_SENT\<close> when the value is below \<open>betAmount\<close>, else with
  \<open>ONLY_PLAYER_2_CAN_START\<close> when the caller is not \<open>player2\<close>. On success both
  schedules are the library's \<open>start\<close> of the old ones, the deposit of \<open>player2\<close> has
  grown by the value sent, and the status is \<open>ACTIVE\<close>. It does succeed when the three
  conditions hold, the library starts both schedules, the deposit does not overflow and
  the hub's \<open>emitUserJoined\<close> returns.
\<close>

theorem start_activates:
  "(status s \<noteq> INACTIVE \<longrightarrow> start E now a v s = Inl (Revert ''ALREADY_STARTED'')) \<and>
   (status s = INACTIVE \<and> v < betAmount s \<longrightarrow>
      start E now a v s = Inl (Revert ''INSUFFICIENT_FUNDS_SENT'')) \<and>
   (status s = INACTIVE \<and> betAmount s \<le> v \<and> a \<noteq> player2 s \<longrightarrow>
      start E now a v s = Inl (Revert ''ONLY_PLAYER_2_CAN_START'')) \<and>
   (\<forall>s'. start E now a v s = Inr s' \<longrightarrow>
      status s = INACTIVE \<and> a = player2 s \<and> betAmount s \<le> v \<and> status s' = ACTIVE \<and>
      unat (depositAmount (players s' (player2 s))) =
        unat (depositAmount (players s (player2 s))) + unat v \<and>
      (\<exists>sch1. AlarmSchedule_start E now (schedule (players s (player1 s))) = Inr sch1 \<and>
             AlarmSchedule_start E now
               (if player2 s = player1 s then sch1 else schedule (players s (player2 s))) =
               Inr (schedule (players s' (player2 s))) \<and>
             (player1 s \<noteq> player2 s \<longrightarrow>
                schedule (players s' (player1 s)) = sch1 \<and>
                depositAmount (players s' (player1 s)) = depositAmount (players s (player1 s))))) \<and>
   (status s = INACTIVE \<and> betAmount s \<le> v \<and> a = player2 s \<and>
    (\<exists>sch1 sch2.
        AlarmSchedule_start E now (schedule (players s (player1 s))) = Inr sch1 \<and>
        AlarmSchedule_start E now
          (if player2 s = player1 s then sch1 else schedule (players s (player2 s))) = Inr sch2) \<and>
    unat (depositAmount (players s (player2 s))) + unat v < 2 ^ 256 \<and>
    hub_emitUserJoined E (player2 s) = None \<longrightarrow>
    (\<exists>s'. start E now a v s = Inr s'))"
proof (intro conjI allI impI)
  assume "status s \<noteq> INACTIVE"
  then show "start E now a v s = Inl (Revert ''ALREADY_STARTED'')"
    by (simp add: start_def)
next
  assume "status s = INACTIVE \<and> v < betAmount s"
  then show "start E now a v s = Inl (Revert ''INSUFFICIENT_FUNDS_SENT'')"
    by (simp add: start_def not_le)
next
  assume "status s = INACTIVE \<and> betAmount s \<le> v \<and> a \<noteq> player2 s"
  then show "start E now a v s = Inl (Revert ''ONLY_PLAYER_2_CAN_START'')"
    by (simp add: start_def)
next
  fix s' assume st: "start E now a v s = Inr s'"
  then show "status s = INACTIVE" "a = player2 s" "betAmount s \<le> v" "status s' = ACTIVE"
    unfolding start_Inr_iff by auto
  from st show "unat (depositAmount (players s' (player2 s))) =
        unat (depositAmount (players s (player2 s))) + unat v"
    unfolding start_Inr_iff by (auto simp: unat_plus_fits)
  from st show "\<exists>sch1. AlarmSchedule_start E now (schedule (players s (player1 s))) = Inr sch1 \<and>
             AlarmSchedule_start E now
               (if player2 s = player1 s then sch1 else schedule (players s (player2 s))) =
               Inr (schedule (players s' (player2 s))) \<and>
             (player1 s \<noteq> player2 s \<longrightarrow>
                schedule (players s' (player1 s)) = sch1 \<and>
                depositAmount (players s' (player1 s)) = depositAmount (players s (player1 s)))"
    unfolding start_Inr_iff by auto
next
  assume "status s = INACTIVE \<and> betAmount s \<le> v \<and> a = player2 s \<and>
    (\<exists>sch1 sch2.
        AlarmSchedule_start E now (schedule (players s (player1 s))) = Inr sch1 \<and>
        AlarmSchedule_start E now
          (if player2 s = player1 s then sch1 else schedule (players s (player2 s))) = Inr sch2) \<and>
    unat (depositAmount (players s (player2 s))) + unat v < 2 ^ 256 \<and>
    hub_emitUserJoined E (player2 s) = None"
  then show "\<exists>s'. start E now a v s = Inr s'"
    unfolding start_Inr_iff by blast
qed

theorem start_activates_witness:
  "start test_env 0 2 10 (test_state ACTIVE 10 0 10 0 3) = Inl (Revert ''ALREADY_STARTED'') \<and>
   start test_env 0 2 5 (test_state INACTIVE 10 0 0 0 3) = Inl (Revert ''INSUFFICIENT_FUNDS_SENT'') \<and>
   start test_env 0 1 10 (test_state INACTIVE 10 0 0 0 3) = Inl (Revert ''ONLY_PLAYER_2_CAN_START'') \<and>
   (\<exists>s'. start test_env 0 2 10 (test_state INACTIVE 10 0 0 0 3) = Inr s' \<and>
         status s' = ACTIVE \<and> unat (depositAmount (players s' 2)) = 10)"
proof -
  let ?i = "test_state INACTIVE 10 0 0 0 3"
  have 1: "start test_env 0 2 10 (test_state ACTIVE 10 0 10 0 3) = Inl (Revert ''ALREADY_STARTED'')"
    using start_activates [of "test_state ACTIVE 10 0 10 0 3" test_env 0 2 10] by simp
  have 2: "start test_env 0 2 5 ?i = Inl (Revert ''INSUFFICIENT_FUNDS_SENT'')"
    using start_activates [of ?i test_env 0 2 5] by simp
  have 3: "start test_env 0 1 10 ?i = Inl (Revert ''ONLY_PLAYER_2_CAN_START'')"
    using start_activates [of ?i test_env 0 1 10] by simp
  note t = start_activates [of ?i test_env 0 2 10]
  from t obtain s' where s': "start test_env 0 2 10 ?i = Inr s'"
    by auto
  with t have "status s' = ACTIVE \<and> unat (depositAmount (players s' 2)) = 10"
    by simp
  with 1 2 3 s' show ?thesis by blast
qed

section \<open>Calls when the commitment is not active\<close>

text \<open>
  \<open>submitConfirmation\<close> has the modifier \<open>onlyPlayer\<close> and no check of the status:
  what a player's call returns is what the library's \<open>recordEntry\<close> returns on the
  player's schedule.
\<close>

lemma submitConfirmation_of_player:
  assumes "a = player1 s \<or> a = player2 s"
  shows "submitConfirmation E now a s =
           (case AlarmSchedule_recordEntry E now (schedule (players s a)) of
              Inl e \<Rightarrow> Inl e
            | Inr sch \<Rightarrow> Inr (set_schedule a sch s))"
  using assms by (simp add: submitConfirmation_def)

text \<open>
  C4, as the code has it, for \<open>withdraw\<close>. \<open>withdraw\<close> is not rejected when the
  status is not \<open>ACTIVE\<close>: for a player it then applies no penalty, sends the other
  player their stored deposit and the caller the rest of the contract's balance, zeroes
  both deposits and sets the status to \<open>CANCELLED\<close>.
\<close>

theorem withdraw_when_not_active:
  assumes "status s \<noteq> ACTIVE" and "a = player1 s \<or> a = player2 s"
    and "depositAmount (players s (otherPlayerOf s a)) \<le> balance s"
    and "accepts E (otherPlayerOf s a) (depositAmount (players s (otherPlayerOf s a)))"
    and "accepts E a (balance s - depositAmount (players s (otherPlayerOf s a)))"
  shows "\<exists>s' s2 s3.
       withdraw E now a s =
         Inr (s', [(s2, otherPlayerOf s a, depositAmount (players s (otherPlayerOf s a))),
                   (s3, a, balance s - depositAmount (players s (otherPlayerOf s a)))]) \<and>
       status s' = CANCELLED \<and> balance s' = 0 \<and>
       depositAmount (players s' a) = 0 \<and>
       depositAmount (players s' (otherPlayerOf s a)) = 0"
proof -
  let ?o = "otherPlayerOf s a"
  let ?d = "depositAmount (players s ?o)"
  from assms(1) have pen: "penalties E now s a 0 0" by (simp add: penalties_def)
  define s2 where "s2 = set_depositAmount ?o 0 (set_depositAmount a 0 s)"
  define s3 where "s3 = s2\<lparr>balance := balance s - ?d\<rparr>"
  define s' where "s' = s3\<lparr>balance := 0, status := CANCELLED\<rparr>"
  have "withdraw E now a s = Inr (s', [(s2, ?o, ?d), (s3, a, balance s - ?d)])"
    unfolding withdraw_Inr_iff Let_def
    using assms pen unsigned_less [of ?d, where ?'a = nat]
    by (intro conjI exI [of _ 0]) (simp_all add: s2_def s3_def s'_def)
  moreover have "status s' = CANCELLED" "balance s' = 0" "depositAmount (players s' a) = 0"
    "depositAmount (players s' ?o) = 0"
    by (simp_all add: s'_def s3_def s2_def)
  ultimately show ?thesis by blast
qed

theorem withdraw_when_not_active_witness:
  "status (test_state INACTIVE 10 0 0 0 3) \<noteq> ACTIVE \<and>
   (\<exists>s' s2 s3. withdraw test_env 0 1 (test_state INACTIVE 10 0 0 0 3) =
        Inr (s', [(s2, 2, 0), (s3, 1, 10)]) \<and> status s' = CANCELLED \<and> balance s' = 0)"
proof -
  let ?s = "test_state INACTIVE 10 0 0 0 3"
  have o: "otherPlayerOf ?s 1 = 2" by (simp add: otherPlayerOf_def)
  have 1: "status ?s \<noteq> ACTIVE" by simp
  have 2: "(1::address) = player1 ?s \<or> 1 = player2 ?s" by simp
  have 3: "depositAmount (players ?s (otherPlayerOf ?s 1)) \<le> balance ?s" by (simp add: o)
  have 4: "accepts test_env (otherPlayerOf ?s 1) (depositAmount (players ?s (otherPlayerOf ?s 1)))"
    by simp
  have 5: "accepts test_env 1 (balance ?s - depositAmount (players ?s (otherPlayerOf ?s 1)))"
    by simp
  from withdraw_when_not_active [OF 1 2 3 4 5, of 0] show ?thesis
    by (simp add: o) blast
qed

text \<open>
  The claim as first stated has \<open>withdraw\<close> rejected: in an \<open>INACTIVE\<close> contract in
  which player 1 has deposited 10, the \<open>withdraw\<close> of player 1 is accepted, pays the 10
  back and leaves the status \<open>CANCELLED\<close>.
\<close>

theorem withdraw_inactive_counterexample:
  "status (test_state INACTIVE 10 0 0 0 3) = INACTIVE \<and>
   (\<exists>s' sent. withdraw test_env 0 1 (test_state INACTIVE 10 0 0 0 3) = Inr (s', sent) \<and>
       status s' = CANCELLED \<and> paid_to 1 sent = 10 \<and> balance s' = 0)"
  unfolding withdraw_Inr_iff Let_def
  by (simp add: penalties_def otherPlayerOf_def paid_to_def)

section \<open>The order of effects in \<open>withdraw\<close>\<close>

text \<open>
  In every successful \<open>withdraw\<close> both transfers see the deposits zeroed and the status
  the call started with; \<open>CANCELLED\<close> is written after them.
\<close>

lemma withdraw_effects_order:
  assumes "withdraw E now a s = Inr (s', sent)"
  shows "length sent = 2 \<and> status s' = CANCELLED \<and>
         list_all (\<lambda>(seen, _, _). status seen = status s \<and>
                     depositAmount (players seen (player1 s)) = 0 \<and>
                     depositAmount (players seen (player2 s)) = 0) sent"
  using assms unfolding withdraw_Inr_iff Let_def
  by (auto simp: otherPlayerOf_def)

text \<open>
  C5. The claim wants the status settled and both deposits zeroed before any transfer.
  The code zeroes the deposits first, but writes the status after the two transfers: in
  the settlement of a contract with deposits 10 and 10, a penalty of 3 and two deadlines
  missed by the caller, both transfers are invoked while the status is still \<open>ACTIVE\<close>.
\<close>

theorem withdraw_status_during_transfers:
  "\<exists>s' s2 s3.
     withdraw test_env 0 1 (test_state ACTIVE 10 2 10 0 3) = Inr (s', [(s2, 2, 16), (s3, 1, 4)]) \<and>
     status s2 = ACTIVE \<and> status s3 = ACTIVE \<and>
     depositAmount (players s2 1) = 0 \<and> depositAmount (players s2 2) = 0 \<and>
     status s' = CANCELLED"
  unfolding withdraw_Inr_iff Let_def
  by (simp add: penalties_def otherPlayerOf_def getPenaltyAmount_def checked_mul_def)

section \<open>Adding to a balance\<close>

text \<open>
  A successful \<open>addToBalance\<close> adds the value sent to the caller's deposit and leaves
  every other deposit as it was, whoever is named.
\<close>

lemma addToBalance_credits_msg_sender:
  assumes "addToBalance a v player s = Inr s'"
  shows "unat (depositAmount (players s' a)) = unat (depositAmount (players s a)) + unat v \<and>
         (\<forall>b. b \<noteq> a \<longrightarrow> depositAmount (players s' b) = depositAmount (players s b))"
  using assms unfolding addToBalance_Inr_iff
  by (auto simp: unat_plus_fits)

text \<open>
  C7. The claim wants \<open>addToBalance(player)\<close> to credit the named player. The code
  checks that \<open>player\<close> is one of the two players and then credits the caller: when
  player 1 sends 5 naming player 2, the deposit of player 2 stays 10 and that of player 1
  becomes 15.
\<close>

theorem addToBalance_credits_caller:
  "\<exists>s'. addToBalance 1 5 2 (test_state ACTIVE 10 0 10 0 3) = Inr s' \<and>
        depositAmount (players s' 2) = 10 \<and> depositAmount (players s' 1) = 15"
  unfolding addToBalance_Inr_iff
  by simp

section \<open>Confirmations\<close>

text \<open>
  The window search of the modelled schedule is sound and complete: what it returns is
  an active day whose window contains the instant, and it returns one, the earliest,
  whenever some active day's window contains the instant.
\<close>

lemma recordConfirmation_Inr_iff:
  "recordConfirmation t sch = Inr sch' \<longleftrightarrow>
     (\<exists>k. openOccurrence (pattern sch) t = Some k \<and>
          sch' = sch\<lparr>confirmedOccurrences := finsert k (confirmedOccurrences sch)\<rparr>)"
  by (auto simp: recordConfirmation_def split: option.splits)

lemma openOccurrence_inWindow:
  "openOccurrence p t = Some k \<Longrightarrow> inWindow p k t"
  by (auto simp: openOccurrence_def find_Some_iff)

lemma openOccurrence_complete:
  assumes "inWindow p d t"
  shows "\<exists>k. openOccurrence p t = Some k \<and> k \<le> d"
proof -
  let ?lo = "- ((timeOfDay p - WeeklyPattern.timezoneOffset p - t) div 86400)"
  let ?hi = "(t - timeOfDay p + WeeklyPattern.timezoneOffset p + WeeklyPattern.submissionWindow p) div 86400"
  from assms have o: "d * 86400 + timeOfDay p - WeeklyPattern.timezoneOffset p
                        - WeeklyPattern.submissionWindow p \<le> t"
    and c: "t \<le> d * 86400 + timeOfDay p - WeeklyPattern.timezoneOffset p"
    by (simp_all add: inWindow_def occurrenceWindow_def Let_def)
  have "(- d * 86400) div 86400 \<le> (timeOfDay p - WeeklyPattern.timezoneOffset p - t) div 86400"
    using c by (intro zdiv_mono1) simp_all
  then have lo: "?lo \<le> d" by simp
  have "(d * 86400) div 86400 \<le> ?hi"
    using o by (intro zdiv_mono1) simp_all
  then have hi: "d \<le> ?hi" by simp
  from lo hi have mem: "d \<in> set [?lo .. ?hi]" by simp
  then obtain i where i: "i < length [?lo .. ?hi]" "[?lo .. ?hi] ! i = d"
    unfolding in_set_conv_nth by blast
  have ex: "\<exists>x \<in> set [?lo .. ?hi]. inWindow p x t" using mem assms by blast
  then obtain k where k: "find (\<lambda>day. inWindow p day t) [?lo .. ?hi] = Some k"
    by (cases "find (\<lambda>day. inWindow p day t) [?lo .. ?hi]") (auto simp: find_None_iff)
  then obtain j where j: "j < length [?lo .. ?hi]" "k = [?lo .. ?hi] ! j"
    "\<forall>m<j. \<not> inWindow p ([?lo .. ?hi] ! m) t"
    unfolding find_Some_iff by blast
  have "j \<le> i" using j(3) i assms by (metis not_le)
  then have "k \<le> d"
    using i j sorted_upto [of ?lo ?hi] by (metis sorted_nth_mono)
  with k show ?thesis by (simp add: openOccurrence_def)
qed

lemma scenario_open:
  "openOccurrence scenario_pattern 369900 = Some 4"
  "openOccurrence scenario_pattern 370200 = Some 4"
  by (simp_all add: openOccurrence_def scenario_pattern_def inWindow_def occurrenceWindow_def
        weekdayOf_def upto.simps)

text \<open>
  C8. Confirmation is idempotent, for the schedule modelled from the specification.
  When a player confirms at two instants in the window of the same occurrence \<open>k\<close>,
  both calls of \<open>submitConfirmation\<close> succeed, the first raises the player's count of
  confirmed occurrences by one (by nothing if \<open>k\<close> was confirmed before), and the second
  leaves it as the first made it.
\<close>

theorem confirmation_idempotent:
  assumes "a = player1 s \<or> a = player2 s"
    and "AlarmSchedule_recordEntry E = (\<lambda>now sch. recordConfirmation (uint now) sch)"
    and "openOccurrence (pattern (schedule (players s a))) (uint t1) = Some k"
    and "openOccurrence (pattern (schedule (players s a))) (uint t2) = Some k"
  shows "\<exists>s1 s2.
           submitConfirmation E t1 a s = Inr s1 \<and>
           submitConfirmation E t2 a s1 = Inr s2 \<and>
           confirmedCount (schedule (players s1 a)) =
             (if k |\<in>| confirmedOccurrences (schedule (players s a))
              then confirmedCount (schedule (players s a))
              else confirmedCount (schedule (players s a)) + 1) \<and>
           confirmedCount (schedule (players s2 a)) = confirmedCount (schedule (players s1 a))"
proof -
  let ?sch = "schedule (players s a)"
  define sch1 where "sch1 = ?sch\<lparr>confirmedOccurrences := finsert k (confirmedOccurrences ?sch)\<rparr>"
  define s1 where "s1 = set_schedule a sch1 s"
  have 1: "submitConfirmation E t1 a s = Inr s1"
    unfolding submitConfirmation_Inr_iff using assms by (simp add: recordConfirmation_Inr_iff s1_def sch1_def)
  have sch: "schedule (players s1 a) = sch1" by (simp add: s1_def)
  have p1: "pattern sch1 = pattern ?sch" by (simp add: sch1_def)
  define s2 where "s2 = set_schedule a (sch1\<lparr>confirmedOccurrences := finsert k (confirmedOccurrences sch1)\<rparr>) s1"
  have 2: "submitConfirmation E t2 a s1 = Inr s2"
    unfolding submitConfirmation_Inr_iff using assms
    by (simp add: recordConfirmation_Inr_iff s2_def sch p1 s1_def)
  have c1: "confirmedCount (schedule (players s1 a)) =
             (if k |\<in>| confirmedOccurrences ?sch then confirmedCount ?sch
              else confirmedCount ?sch + 1)"
    by (simp add: sch sch1_def confirmedCount_def fcard_finsert_if)
  have c2: "confirmedCount (schedule (players s2 a)) = confirmedCount (schedule (players s1 a))"
    by (simp add: s2_def sch sch1_def confirmedCount_def)
  from 1 2 c1 c2 show ?thesis by blast
qed

theorem confirmation_idempotent_witness:
  "\<exists>s1 s2.
     submitConfirmation scenario_env 369900 1 scenario_state = Inr s1 \<and>
     submitConfirmation scenario_env 370200 1 s1 = Inr s2 \<and>
     confirmedCount (schedule (players scenario_state 1)) = 0 \<and>
     confirmedCount (schedule (players s1 1)) = 1 \<and>
     confirmedCount (schedule (players s2 1)) = 1"
proof -
  have p: "(1::address) = player1 scenario_state \<or> 1 = player2 scenario_state"
    by (simp add: scenario_state_def)
  have e: "AlarmSchedule_recordEntry scenario_env = (\<lambda>now sch. recordConfirmation (uint now) sch)"
    by (simp add: scenario_env_def)
  have sch: "schedule (players scenario_state 1) = scenario_schedule"
    by (simp add: scenario_state_def)
  have o1: "openOccurrence (pattern (schedule (players scenario_state 1))) (uint (369900::uint256)) = Some 4"
    by (simp add: sch scenario_schedule_def scenario_open)
  have o2: "openOccurrence (pattern (schedule (players scenario_state 1))) (uint (370200::uint256)) = Some 4"
    by (simp add: sch scenario_schedule_def scenario_open)
  from confirmation_idempotent [OF p e o1 o2] show ?thesis
    by (auto simp: sch scenario_schedule_def confirmedCount_def)
qed

section \<open>The client's readiness\<close>






end
